theory Spec2Isabelle
  imports Main
begin

section \<open>JavaScript strings\<close>

text \<open>
  A JavaScript string is a sequence of UTF-16 code units. The patterns of
  \<^verbatim>\<open>emailReceiver.js\<close> mention code units beyond Latin-1 (the full-width
  colon U+FF1A, the ideographic space U+3000, four CJK ideographs), so a code unit is an
  integer (between 0 and 65535) and an ASCII literal is converted by \<open>js\<close>.
\<close>

type_synonym jsstring = "int list"

definition js :: "string \<Rightarrow> jsstring" where
  "js s = map of_char s"

text \<open>\<^verbatim>\<open>s.includes(t)\<close>: \<open>t\<close> occurs in \<open>s\<close> as a contiguous block.\<close>

fun str_includes :: "jsstring \<Rightarrow> jsstring \<Rightarrow> bool" where
  "str_includes [] t = (t = [])"
| "str_includes (x # xs) t = (take (length t) (x # xs) = t \<or> str_includes xs t)"

text \<open>\<^verbatim>\<open>s.split('@')[0]\<close>: everything before the first \<open>@\<close> (code unit 64).\<close>

definition split_at_0 :: "jsstring \<Rightarrow> jsstring" where
  "split_at_0 s = takeWhile (\<lambda>u. u \<noteq> 64) s"

text \<open>A value handed to \<^verbatim>\<open>resolve\<close>: a capture group is a string or \<^verbatim>\<open>undefined\<close>.\<close>

datatype jsval = Undefined | Str jsstring

section \<open>Regular expressions\<close>

text \<open>
  The regular expressions of the source, as syntax trees, and a backtracking matcher
  that lists the ways a pattern can end, in the order in which the ECMAScript matcher
  tries them; the head of the list is the match the engine reports. Only the
  constructs that occur in the source are present. None of the source's patterns has
  the \<^verbatim>\<open>m\<close>, \<^verbatim>\<open>g\<close> or \<^verbatim>\<open>u\<close> flag, so \<^verbatim>\<open>^\<close> and \<^verbatim>\<open>$\<close> are the
  ends of the input and matching is on code units.
\<close>

datatype regex =
    Cls "int \<Rightarrow> bool"
  | Bol
  | Eol
  | Eps
  | Seq regex regex
  | Alt regex regex
  | Opt regex
  | Star regex
  | Rep nat regex
  | Grp regex
  | NotAhead regex

type_synonym mstate = "nat \<times> jsval"

primrec iter_rep :: "nat \<Rightarrow> (nat \<Rightarrow> jsval \<Rightarrow> mstate list) \<Rightarrow> nat \<Rightarrow> jsval \<Rightarrow> mstate list" where
  "iter_rep 0 f i c = [(i, c)]"
| "iter_rep (Suc n) f i c = concat (map (\<lambda>(j, c'). iter_rep n f j c') (f i c))"

text \<open>
  A greedy star: one more iteration first, the empty continuation last. An iteration
  that consumes nothing is rejected, as ECMAScript's RepeatMatcher does; every
  iteration therefore advances, and \<open>length s\<close> rounds of fuel are never used up.
\<close>

primrec iter_star :: "nat \<Rightarrow> (nat \<Rightarrow> jsval \<Rightarrow> mstate list) \<Rightarrow> nat \<Rightarrow> jsval \<Rightarrow> mstate list" where
  "iter_star 0 f i c = [(i, c)]"
| "iter_star (Suc n) f i c =
     concat (map (\<lambda>(j, c'). if i < j then iter_star n f j c' else []) (f i c)) @ [(i, c)]"

primrec rmatch :: "regex \<Rightarrow> jsstring \<Rightarrow> nat \<Rightarrow> jsval \<Rightarrow> mstate list" where
  "rmatch (Cls P) s i c = (if i < length s \<and> P (s ! i) then [(Suc i, c)] else [])"
| "rmatch Bol s i c = (if i = 0 then [(i, c)] else [])"
| "rmatch Eol s i c = (if i = length s then [(i, c)] else [])"
| "rmatch Eps s i c = [(i, c)]"
| "rmatch (Seq a b) s i c = concat (map (\<lambda>(j, c'). rmatch b s j c') (rmatch a s i c))"
| "rmatch (Alt a b) s i c = rmatch a s i c @ rmatch b s i c"
| "rmatch (Opt a) s i c = filter (\<lambda>(j, c'). i < j) (rmatch a s i c) @ [(i, c)]"
| "rmatch (Star a) s i c = iter_star (length s) (rmatch a s) i c"
| "rmatch (Rep n a) s i c = iter_rep n (rmatch a s) i c"
| "rmatch (Grp a) s i c = map (\<lambda>(j, c'). (j, Str (take (j - i) (drop i s)))) (rmatch a s i c)"
| "rmatch (NotAhead a) s i c = (if rmatch a s i c = [] then [(i, c)] else [])"

text \<open>
  \<^verbatim>\<open>s.match(re)\<close> for a pattern without the \<^verbatim>\<open>g\<close> flag, read at index 1:
  \<open>None\<close> is \<^verbatim>\<open>null\<close> (no match at any start position), \<open>Some v\<close> is
  \<^verbatim>\<open>match[1]\<close> of the leftmost match.
\<close>

definition str_match :: "jsstring \<Rightarrow> regex \<Rightarrow> jsval option" where
  "str_match s re =
     (case List.find (\<lambda>i. rmatch re s i Undefined \<noteq> []) [0..<Suc (length s)] of
        None \<Rightarrow> None
      | Some i \<Rightarrow> Some (snd (hd (rmatch re s i Undefined))))"

subsection \<open>Character classes and literals\<close>

text \<open>\<^verbatim>\<open>\d\<close> and \<^verbatim>\<open>[0-9]\<close>.\<close>

definition digit :: "int \<Rightarrow> bool" where
  "digit u = (48 \<le> u \<and> u \<le> 57)"

text \<open>\<^verbatim>\<open>\s\<close>: ECMAScript's WhiteSpace and LineTerminator code points.\<close>

definition ws :: "int \<Rightarrow> bool" where
  "ws u = ((9 \<le> u \<and> u \<le> 13) \<or> u = 32 \<or> u = 160 \<or> u = 5760 \<or> (8192 \<le> u \<and> u \<le> 8202)
           \<or> u = 8232 \<or> u = 8233 \<or> u = 8239 \<or> u = 8287 \<or> u = 12288 \<or> u = 65279)"

text \<open>
  Under the \<^verbatim>\<open>i\<close> flag two code units match when their canonical forms agree. The
  pattern characters of the source are ASCII or caseless, and ECMAScript never
  canonicalises a code unit from 128 on to an ASCII one, so folding \<open>a-z\<close> onto
  \<open>A-Z\<close> decides every comparison against them.
\<close>

definition canon :: "int \<Rightarrow> int" where
  "canon u = (if 97 \<le> u \<and> u \<le> 122 then u - 32 else u)"

definition lit_i :: "jsstring \<Rightarrow> regex" where
  "lit_i us = foldr (\<lambda>p r. Seq (Cls (\<lambda>u. canon u = canon p)) r) us Eps"

definition seqs :: "regex list \<Rightarrow> regex" where
  "seqs rs = foldr Seq rs Eps"

text \<open>\<^verbatim>\<open>a+\<close>\<close>

definition plus_re :: "regex \<Rightarrow> regex" where
  "plus_re a = Seq a (Star a)"

text \<open>\<^verbatim>\<open>[A-Z0-9]\<close> under the \<^verbatim>\<open>i\<close> flag.\<close>

definition alnum_i :: "int \<Rightarrow> bool" where
  "alnum_i u = ((65 \<le> canon u \<and> canon u \<le> 90) \<or> digit u)"

text \<open>
  \<^verbatim>\<open>[F:\s]\<close>, where \<open>F\<close> stands for the full-width colon U+FF1A of the source,
  and \<^verbatim>\<open>[F:\sI]\<close>, where \<open>I\<close> stands for the escape of the ideographic space
  U+3000 (already a member of \<^verbatim>\<open>\s\<close>).
\<close>

definition colon_ws :: "int \<Rightarrow> bool" where
  "colon_ws u = (u = 65306 \<or> u = 58 \<or> ws u)"

definition colon_ws_ideo :: "int \<Rightarrow> bool" where
  "colon_ws_ideo u = (u = 65306 \<or> u = 58 \<or> ws u \<or> u = 12288)"

section \<open>The pattern table and the subject pattern\<close>

text \<open>
  The ten patterns of \<^verbatim>\<open>processEmail\<close>, in the order of the source; \<open>F\<close> and
  \<open>I\<close> as above.

  \<^verbatim>\<open>/following\s+6\s*-?\s*digit\s+code[^\d]*(\d{6})/i\<close>
\<close>

definition pat_following6 :: regex where
  "pat_following6 =
     seqs [lit_i (js ''following''), plus_re (Cls ws), lit_i (js ''6''), Star (Cls ws),
           Opt (lit_i (js ''-'')), Star (Cls ws), lit_i (js ''digit''), plus_re (Cls ws),
           lit_i (js ''code''), Star (Cls (\<lambda>u. \<not> digit u)), Grp (Rep 6 (Cls digit))]"

text \<open>\<^verbatim>\<open>/enter\s+(?:the\s+)?following[^\d]*(\d{6})/i\<close>\<close>

definition pat_enter :: regex where
  "pat_enter =
     seqs [lit_i (js ''enter''), plus_re (Cls ws),
           Opt (seqs [lit_i (js ''the''), plus_re (Cls ws)]),
           lit_i (js ''following''), Star (Cls (\<lambda>u. \<not> digit u)), Grp (Rep 6 (Cls digit))]"

text \<open>\<^verbatim>\<open>/verification\s*code[F:\s]*([A-Z0-9]{6})/i\<close>\<close>

definition pat_verification_code :: regex where
  "pat_verification_code =
     seqs [lit_i (js ''verification''), Star (Cls ws), lit_i (js ''code''),
           Star (Cls colon_ws), Grp (Rep 6 (Cls alnum_i))]"

text \<open>\<^verbatim>\<open>/verify\s*code[F:\s]*([A-Z0-9]{6})/i\<close>\<close>

definition pat_verify_code :: regex where
  "pat_verify_code =
     seqs [lit_i (js ''verify''), Star (Cls ws), lit_i (js ''code''),
           Star (Cls colon_ws), Grp (Rep 6 (Cls alnum_i))]"

text \<open>\<^verbatim>\<open>/code\s*(?:is)?[F:\s]+([A-Z0-9]{6})/i\<close>\<close>

definition pat_code_is :: regex where
  "pat_code_is =
     seqs [lit_i (js ''code''), Star (Cls ws), Opt (lit_i (js ''is'')),
           plus_re (Cls colon_ws), Grp (Rep 6 (Cls alnum_i))]"

text \<open>\<^verbatim>\<open>/your\s*code[F:\s]*([A-Z0-9]{6})/i\<close>\<close>

definition pat_your_code :: regex where
  "pat_your_code =
     seqs [lit_i (js ''your''), Star (Cls ws), lit_i (js ''code''),
           Star (Cls colon_ws), Grp (Rep 6 (Cls alnum_i))]"

text \<open>U+9A8C U+8BC1 U+7801 followed by \<^verbatim>\<open>[F:\sI]*([A-Z0-9]{6})\<close>, flag \<^verbatim>\<open>i\<close>\<close>

definition pat_yanzhengma :: regex where
  "pat_yanzhengma =
     seqs [lit_i [39564, 35777, 30721], Star (Cls colon_ws_ideo), Grp (Rep 6 (Cls alnum_i))]"

text \<open>U+9A8C U+8BC1 U+4EE3 U+7801 followed by \<^verbatim>\<open>[F:\sI]*([A-Z0-9]{6})\<close>, flag \<^verbatim>\<open>i\<close>\<close>

definition pat_yanzhengdaima :: regex where
  "pat_yanzhengdaima =
     seqs [lit_i [39564, 35777, 20195, 30721], Star (Cls colon_ws_ideo),
           Grp (Rep 6 (Cls alnum_i))]"

text \<open>\<^verbatim>\<open>/code[F:\s]*([A-Z0-9]{6})(?![0-9])/i\<close>\<close>

definition pat_code :: regex where
  "pat_code =
     seqs [lit_i (js ''code''), Star (Cls colon_ws), Grp (Rep 6 (Cls alnum_i)),
           NotAhead (Cls digit)]"

text \<open>\<^verbatim>\<open>/(?:^|[^0-9])([0-9]{6})(?:[^0-9]|$)/\<close>\<close>

definition pat_bare6 :: regex where
  "pat_bare6 =
     seqs [Alt Bol (Cls (\<lambda>u. \<not> digit u)), Grp (Rep 6 (Cls digit)),
           Alt (Cls (\<lambda>u. \<not> digit u)) Eol]"

definition patterns :: "regex list" where
  "patterns = [pat_following6, pat_enter, pat_verification_code, pat_verify_code, pat_code_is,
               pat_your_code, pat_yanzhengma, pat_yanzhengdaima, pat_code, pat_bare6]"

text \<open>\<^verbatim>\<open>/(?:^|[\s\-:])([0-9]{6})(?:[\s\-]|$)/\<close>, the subject pattern of both paths.\<close>

definition lead_flank :: "int \<Rightarrow> bool" where
  "lead_flank u = (ws u \<or> u = 45 \<or> u = 58)"

definition trail_flank :: "int \<Rightarrow> bool" where
  "trail_flank u = (ws u \<or> u = 45)"

definition subject_re :: regex where
  "subject_re = seqs [Alt Bol (Cls lead_flank), Grp (Rep 6 (Cls digit)), Alt (Cls trail_flank) Eol]"

section \<open>The loop over the pattern table\<close>

text \<open>
  \<^verbatim>\<open>for (const pattern of patterns) { const match = text.match(pattern); if (match) ... }\<close>:
  the first pattern that matches decides, and its first capture group is the code.
\<close>

fun cascade :: "regex list \<Rightarrow> jsstring \<Rightarrow> jsval option" where
  "cascade [] t = None"
| "cascade (p # ps) t = (case str_match t p of Some v \<Rightarrow> Some v | None \<Rightarrow> cascade ps t)"

section \<open>Parsed messages and the environment of a call\<close>

text \<open>
  What \<^verbatim>\<open>simpleParser\<close> hands to the callbacks. A field the parser leaves out is
  \<open>None\<close>; \<open>p_from\<close> and \<open>p_to\<close> are \<^verbatim>\<open>parsed.from?.text\<close> and
  \<^verbatim>\<open>parsed.to?.text\<close>, \<open>p_date\<close> is \<^verbatim>\<open>parsed.date\<close> in milliseconds.
\<close>

record parsed =
  p_subject :: "jsstring option"
  p_from :: "jsstring option"
  p_to :: "jsstring option"
  p_date :: "int option"
  p_text :: "jsstring option"
  p_html :: "jsstring option"

text \<open>\<^verbatim>\<open>x || ''\<close>\<close>

definition or_empty :: "jsstring option \<Rightarrow> jsstring" where
  "or_empty x = (case x of None \<Rightarrow> [] | Some s \<Rightarrow> s)"

text \<open>\<^verbatim>\<open>if (x)\<close> for an optional string: present and not empty.\<close>

definition truthy :: "jsstring option \<Rightarrow> bool" where
  "truthy x = (case x of None \<Rightarrow> False | Some s \<Rightarrow> s \<noteq> [])"

text \<open>
  The arguments of \<^verbatim>\<open>getVerificationCode\<close>, the time at which it was called, and
  two string functions the model does not fix. \<open>toLowerCase\<close> is the method of the
  JavaScript runtime (Unicode-aware, not part of the repository). \<open>cleanHtml\<close> is the
  chain of \<^verbatim>\<open>replace\<close> calls and the \<^verbatim>\<open>trim\<close> of lines 240-247; its numeric character
  references go through \<^verbatim>\<open>String.fromCharCode\<close> of an IEEE double. Every theorem
  below holds for whatever the two functions compute.
\<close>

record env =
  targetEmail :: jsstring
  maxWaitTime :: int
  startTime :: int
  toLowerCase :: "jsstring \<Rightarrow> jsstring"
  cleanHtml :: "jsstring \<Rightarrow> jsstring"

section \<open>The session\<close>

datatype imap_state = Disconnected | Connected | Authenticated

datatype error =
    TimeoutError
  | OpenBoxError jsstring
  | ConnectionError jsstring

datatype outcome = Resolve jsval | Reject error

text \<open>The calls the session makes on the connection and on the timer.\<close>

datatype action =
    Connect
  | EndConnection
  | OpenBox jsstring
  | CloseBox
  | GetBoxes
  | SearchUnseen
  | SearchAll
  | FetchHeaders "nat list"
  | FetchFull nat
  | SetInterval
  | ClearInterval

text \<open>Of the log lines, the reports of a failed round trip are kept.\<close>

datatype logline =
    SearchFailed
  | FetchFailed
  | FullFetchFailed
  | CloseBoxFailed
  | OpenJunkFailed

text \<open>Where the asynchronous chain of \<^verbatim>\<open>switchToNextBox\<close> stands.\<close>

datatype switch_phase =
    NotSwitching
  | AwaitBoxes
  | AwaitClose jsstring
  | AwaitOpen jsstring
  | SwitchEnded

text \<open>
  The variables of the closure of \<^verbatim>\<open>getVerificationCode\<close> (\<open>checkInterval\<close> is
  whether the timer is set), the \<^verbatim>\<open>state\<close> property of the connection object, which
  the library owns, and the bookkeeping of the model: the calls of
  \<^verbatim>\<open>resolve\<close>/\<^verbatim>\<open>reject\<close> in order, the calls made on the connection and the
  timer, the failure log, and which callbacks are registered: a \<^verbatim>\<open>once\<close> handler
  runs one time, and the callbacks of \<^verbatim>\<open>openBox\<close>, of the list of boxes and of
  \<^verbatim>\<open>closeBox\<close> run after their requests. Completions of searches and fetches are
  not tied to a request: the theorems hold for them whenever they arrive.
\<close>

record session =
  checkInterval :: bool
  isResolved :: bool
  currentBox :: "jsstring option"
  junkBoxChecked :: bool
  processedEmails :: "nat set"
  imapState :: imap_state
  settled :: "outcome list"
  calls :: "action list"
  logged :: "logline list"
  onReady :: bool
  onError :: bool
  onEnd :: bool
  openingInbox :: bool
  switchPhase :: switch_phase

definition call :: "action \<Rightarrow> session \<Rightarrow> session" where
  "call a st = st\<lparr>calls := calls st @ [a]\<rparr>"

definition log_line :: "logline \<Rightarrow> session \<Rightarrow> session" where
  "log_line l st = st\<lparr>logged := logged st @ [l]\<rparr>"

text \<open>The state right after \<^verbatim>\<open>imap.connect()\<close> at the end of the executor.\<close>

definition session0 :: session where
  "session0 = \<lparr>checkInterval = False, isResolved = False, currentBox = None,
     junkBoxChecked = False, processedEmails = {}, imapState = Disconnected,
     settled = [], calls = [Connect], logged = [],
     onReady = True, onError = True, onEnd = True, openingInbox = False,
     switchPhase = NotSwitching\<rparr>"

text \<open>
  \<^verbatim>\<open>cleanup\<close>: clear the timer if it is set, and call \<^verbatim>\<open>imap.end()\<close> unless the
  connection reports \<^verbatim>\<open>'disconnected'\<close>.
\<close>

definition cleanup :: "session \<Rightarrow> session" where
  "cleanup st =
     (let st1 = (if checkInterval st then call ClearInterval (st\<lparr>checkInterval := False\<rparr>) else st)
      in if imapState st1 \<noteq> Disconnected then call EndConnection st1 else st1)"

text \<open>
  The block every terminal site of the source repeats:
  \<^verbatim>\<open>cleanup(); if (!isResolved) { isResolved = true; resolve(...) or reject(...) }\<close>.
\<close>

definition finish :: "outcome \<Rightarrow> session \<Rightarrow> session" where
  "finish oc st =
     (let st1 = cleanup st
      in if \<not> isResolved st1 then st1\<lparr>isResolved := True, settled := settled st1 @ [oc]\<rparr>
         else st1)"

definition mark :: "nat \<Rightarrow> session \<Rightarrow> session" where
  "mark emailId st = st\<lparr>processedEmails := insert emailId (processedEmails st)\<rparr>"

subsection \<open>Classification\<close>

text \<open>\<^verbatim>\<open>maxEmailAge = 2 * 60 * 1000\<close>; a message without a date counts as sent now.\<close>

definition emailAge :: "int \<Rightarrow> parsed \<Rightarrow> int" where
  "emailAge now parsed = now - (case p_date parsed of None \<Rightarrow> now | Some d \<Rightarrow> d)"

definition maxEmailAge :: int where
  "maxEmailAge = 2 * 60 * 1000"

text \<open>The provenance test of \<^verbatim>\<open>processEmail\<close> (lines 131-137).\<close>

definition isWindsurfEmail :: "env \<Rightarrow> jsstring \<Rightarrow> jsstring \<Rightarrow> bool" where
  "isWindsurfEmail E subject sender =
     (let subjectLower = toLowerCase E subject; fromLower = toLowerCase E sender
      in str_includes subjectLower (js ''windsurf'') \<or>
         str_includes subjectLower (js ''verify'') \<or>
         str_includes subjectLower (js ''verification'') \<or>
         str_includes fromLower (js ''windsurf'') \<or>
         str_includes fromLower (js ''codeium'') \<or>
         str_includes fromLower (js ''exafunction''))"

text \<open>The provenance test of the header callback (lines 448-452).\<close>

definition isWindsurf :: "env \<Rightarrow> jsstring \<Rightarrow> jsstring \<Rightarrow> bool" where
  "isWindsurf E subject sender =
     (let subjectLower = toLowerCase E subject; fromLower = toLowerCase E sender
      in str_includes subjectLower (js ''windsurf'') \<or>
         str_includes subjectLower (js ''verify'') \<or>
         str_includes fromLower (js ''windsurf'') \<or>
         str_includes fromLower (js ''codeium'') \<or>
         str_includes fromLower (js ''exafunction''))"

text \<open>The recipient test of the header callback (lines 462-464).\<close>

definition isTargetEmail_header :: "env \<Rightarrow> jsstring \<Rightarrow> bool" where
  "isTargetEmail_header E recipient =
     (let emailDomain = split_at_0 (targetEmail E)
      in str_includes (toLowerCase E recipient) (toLowerCase E (targetEmail E)) \<or>
         str_includes (toLowerCase E recipient) (toLowerCase E emailDomain))"

text \<open>
  The recipient test of \<^verbatim>\<open>processEmail\<close>, the same for the plain text (lines 180-184)
  and for the HTML (lines 213-217); \<open>body\<close> is \<^verbatim>\<open>parsed.text\<close> or \<^verbatim>\<open>parsed.html\<close>.
\<close>

definition isTargetEmail_body :: "env \<Rightarrow> jsstring \<Rightarrow> jsstring \<Rightarrow> bool" where
  "isTargetEmail_body E recipient body =
     (let bodyLower = toLowerCase E body; emailDomain = split_at_0 (targetEmail E)
      in str_includes recipient (targetEmail E) \<or>
         str_includes bodyLower (toLowerCase E (targetEmail E)) \<or>
         str_includes bodyLower (toLowerCase E emailDomain))"

subsection \<open>processEmail\<close>

text \<open>The HTML stage (lines 207-261), entered when the text stage found nothing.\<close>

definition processEmail_html :: "env \<Rightarrow> parsed \<Rightarrow> session \<Rightarrow> bool \<times> session" where
  "processEmail_html E parsed st =
     (if truthy (p_html parsed) then
        (let html = or_empty (p_html parsed) in
         if \<not> isTargetEmail_body E (or_empty (p_to parsed)) html then (False, st)
         else case cascade patterns html of
                Some v \<Rightarrow> (True, finish (Resolve v) st)
              | None \<Rightarrow>
                 (case cascade patterns (cleanHtml E html) of
                    Some v \<Rightarrow> (True, finish (Resolve v) st)
                  | None \<Rightarrow> (False, st)))
      else (False, st))"

text \<open>The text stage (lines 178-204).\<close>

definition processEmail_text :: "env \<Rightarrow> parsed \<Rightarrow> session \<Rightarrow> bool \<times> session" where
  "processEmail_text E parsed st =
     (if truthy (p_text parsed) then
        (let text = or_empty (p_text parsed) in
         if \<not> isTargetEmail_body E (or_empty (p_to parsed)) text then (False, st)
         else case cascade patterns text of
                Some v \<Rightarrow> (True, finish (Resolve v) st)
              | None \<Rightarrow> processEmail_html E parsed st)
      else processEmail_html E parsed st)"

text \<open>\<^verbatim>\<open>processEmail(parsed, emailId)\<close>, run at time \<open>now\<close>; the boolean is its result.\<close>

definition processEmail :: "env \<Rightarrow> int \<Rightarrow> parsed \<Rightarrow> nat \<Rightarrow> session \<Rightarrow> bool \<times> session" where
  "processEmail E now parsed emailId st =
     (if isResolved st \<or> emailId \<in> processedEmails st then (False, st)
      else
        (let st1 = mark emailId st;
             subject = or_empty (p_subject parsed);
             sender = or_empty (p_from parsed)
         in if emailAge now parsed > maxEmailAge then (False, st1)
            else if \<not> isWindsurfEmail E subject sender then (False, st1)
            else case str_match subject subject_re of
                   Some v \<Rightarrow> (True, finish (Resolve v) st1)
                 | None \<Rightarrow> processEmail_text E parsed st1))"

subsection \<open>Polling\<close>

text \<open>\<^verbatim>\<open>switchToNextBox\<close> up to its \<^verbatim>\<open>await\<close>.\<close>

definition switchToNextBox :: "session \<Rightarrow> session" where
  "switchToNextBox st =
     (if isResolved st \<or> junkBoxChecked st then st
      else call GetBoxes (st\<lparr>junkBoxChecked := True, switchPhase := AwaitBoxes\<rparr>))"

definition junkBoxNames :: "jsstring list" where
  "junkBoxNames = [js ''Junk'', js ''Spam'', js ''Deleted Messages'', js ''Trash'',
     js ''Bulk Mail'', js ''[Gmail]/Spam'', js ''INBOX.Junk'', js ''INBOX.Spam'']"

text \<open>The loop of lines 291-298: the first box whose lower-cased name includes a junk name.\<close>

definition find_junkBox :: "env \<Rightarrow> jsstring list \<Rightarrow> jsstring option" where
  "find_junkBox E allBoxes =
     List.find (\<lambda>boxName. list_ex (\<lambda>junk. str_includes (toLowerCase E boxName) (toLowerCase E junk))
                  junkBoxNames) allBoxes"

definition INBOX :: jsstring where
  "INBOX = js ''INBOX''"

text \<open>\<^verbatim>\<open>checkMail\<close> up to the call of \<^verbatim>\<open>imap.search\<close>.\<close>

definition checkMail :: "env \<Rightarrow> int \<Rightarrow> session \<Rightarrow> session" where
  "checkMail E now st =
     (if isResolved st then st
      else if now - startTime E > maxWaitTime E then finish (Reject TimeoutError) st
      else if \<not> truthy (currentBox st) then st
      else call SearchUnseen st)"

text \<open>The identifiers of a search result that is not \<^verbatim>\<open>null\<close>.\<close>

definition or_nil :: "nat list option \<Rightarrow> nat list" where
  "or_nil r = (case r of None \<Rightarrow> [] | Some ids \<Rightarrow> ids)"

text \<open>\<^verbatim>\<open>newResults.sort((a, b) => b - a)\<close>\<close>

definition sort_desc :: "nat list \<Rightarrow> nat list" where
  "sort_desc xs = rev (sort xs)"

definition processSearchResults :: "nat list \<Rightarrow> session \<Rightarrow> session" where
  "processSearchResults results st =
     (let newResults = filter (\<lambda>id. id \<notin> processedEmails st) results
      in if newResults = [] then st
         else call (FetchHeaders (take 10 (sort_desc newResults))) st)"

text \<open>\<^verbatim>\<open>!results || results.length === 0\<close>\<close>

definition no_results :: "nat list option \<Rightarrow> bool" where
  "no_results r = (case r of None \<Rightarrow> True | Some ids \<Rightarrow> ids = [])"

text \<open>The callback of the search for unread messages (lines 363-397).\<close>

definition onSearch :: "jsstring option \<Rightarrow> nat list option \<Rightarrow> session \<Rightarrow> session" where
  "onSearch err results st =
     (if err \<noteq> None then log_line SearchFailed st
      else if no_results results then call SearchAll st
      else processSearchResults (or_nil results) st)"

text \<open>The callback of the fallback search (lines 375-392).\<close>

definition onFallbackSearch ::
  "env \<Rightarrow> int \<Rightarrow> jsstring option \<Rightarrow> nat list option \<Rightarrow> session \<Rightarrow> session" where
  "onFallbackSearch E now fallbackErr fallbackResults st =
     (if fallbackErr \<noteq> None \<or> no_results fallbackResults then
        (if currentBox st = Some INBOX \<and> \<not> junkBoxChecked st then
           (let elapsedTime = now - startTime E
            in if elapsedTime > 30000 then switchToNextBox st else st)
         else st)
      else processSearchResults (or_nil fallbackResults) st)"

text \<open>
  The callback of \<^verbatim>\<open>simpleParser\<close> on the headers (lines 430-527); \<open>emailId\<close> is
  \<^verbatim>\<open>attrs.uid\<close>, \<open>None\<close> when the attributes have not arrived.
\<close>

definition onHeaderParsed ::
  "env \<Rightarrow> int \<Rightarrow> bool \<Rightarrow> nat option \<Rightarrow> parsed \<Rightarrow> session \<Rightarrow> session" where
  "onHeaderParsed E now err emailId parsed st =
     (case emailId of
        None \<Rightarrow> st
      | Some uid \<Rightarrow>
          if err \<or> uid = 0 \<or> isResolved st then st
          else
            (let subject = or_empty (p_subject parsed);
                 sender = or_empty (p_from parsed);
                 recipient = or_empty (p_to parsed)
             in if emailAge now parsed > 2 * 60 * 1000 then mark uid st
                else if \<not> isWindsurf E subject sender then mark uid st
                else if \<not> isTargetEmail_header E recipient then mark uid st
                else case str_match subject subject_re of
                       Some v \<Rightarrow> finish (Resolve v) (mark uid st)
                     | None \<Rightarrow> call (FetchFull uid) st))"

text \<open>The callback of \<^verbatim>\<open>simpleParser\<close> on the full message (lines 505-519).\<close>

definition onFullParsed :: "env \<Rightarrow> int \<Rightarrow> bool \<Rightarrow> parsed \<Rightarrow> nat \<Rightarrow> session \<Rightarrow> session" where
  "onFullParsed E now err fullParsed emailId st =
     (if err \<or> isResolved st then st else snd (processEmail E now fullParsed emailId st))"

text \<open>
  The rest of \<^verbatim>\<open>switchToNextBox\<close>: after the list of boxes (the result of
  \<^verbatim>\<open>getMailboxList\<close>), after \<^verbatim>\<open>closeBox\<close>, after \<^verbatim>\<open>openBox\<close>.
\<close>

definition onBoxes :: "env \<Rightarrow> jsstring list \<Rightarrow> session \<Rightarrow> session" where
  "onBoxes E allBoxes st =
     (case find_junkBox E allBoxes of
        None \<Rightarrow> st\<lparr>switchPhase := SwitchEnded\<rparr>
      | Some junkBox \<Rightarrow> call CloseBox (st\<lparr>switchPhase := AwaitClose junkBox\<rparr>))"

definition onCloseBox :: "jsstring \<Rightarrow> jsstring option \<Rightarrow> session \<Rightarrow> session" where
  "onCloseBox junkBox err st =
     call (OpenBox junkBox)
       ((if err \<noteq> None then log_line CloseBoxFailed st else st)\<lparr>switchPhase := AwaitOpen junkBox\<rparr>)"

definition onOpenJunk :: "env \<Rightarrow> int \<Rightarrow> jsstring \<Rightarrow> jsstring option \<Rightarrow> session \<Rightarrow> session" where
  "onOpenJunk E now junkBox err st =
     (if err \<noteq> None then log_line OpenJunkFailed (st\<lparr>switchPhase := SwitchEnded\<rparr>)
      else checkMail E now (st\<lparr>switchPhase := SwitchEnded, currentBox := Some junkBox\<rparr>))"

text \<open>The handlers of \<^verbatim>\<open>ready\<close> (with the callback of \<^verbatim>\<open>openBox('INBOX')\<close>),
  \<^verbatim>\<open>error\<close> and \<^verbatim>\<open>end\<close> (lines 543-586).\<close>

definition onOpenInbox :: "env \<Rightarrow> int \<Rightarrow> jsstring option \<Rightarrow> session \<Rightarrow> session" where
  "onOpenInbox E now err st =
     (case err of
        Some msg \<Rightarrow> finish (Reject (OpenBoxError msg)) st
      | None \<Rightarrow>
          call SetInterval ((checkMail E now (st\<lparr>currentBox := Some INBOX\<rparr>))\<lparr>checkInterval := True\<rparr>))"

definition onImapError :: "jsstring \<Rightarrow> session \<Rightarrow> session" where
  "onImapError msg st = finish (Reject (ConnectionError msg)) st"

definition onImapEnd :: "session \<Rightarrow> session" where
  "onImapEnd st = cleanup st"

subsection \<open>Events\<close>

text \<open>
  What can happen to a session: the library changes \<^verbatim>\<open>imap.state\<close>, an event of the
  connection fires, the timer ticks, or a request completes. \<open>now\<close> is
  \<^verbatim>\<open>Date.now()\<close> in the handler.
\<close>

datatype event =
    LibState imap_state
  | Ready
  | OpenInboxCb int "jsstring option"
  | Tick int
  | SearchCb "jsstring option" "nat list option"
  | FallbackCb int "jsstring option" "nat list option"
  | HeaderParsed int bool "nat option" parsed
  | FetchError
  | FullParsed int bool parsed nat
  | FullFetchError nat
  | BoxesCb "jsstring list"
  | CloseBoxCb "jsstring option"
  | OpenJunkCb int "jsstring option"
  | ImapError jsstring
  | ImapEnd

fun step :: "env \<Rightarrow> event \<Rightarrow> session \<Rightarrow> session" where
  "step E (LibState s) st = st\<lparr>imapState := s\<rparr>"
| "step E Ready st =
     (if onReady st then call (OpenBox INBOX) (st\<lparr>onReady := False, openingInbox := True\<rparr>) else st)"
| "step E (OpenInboxCb now err) st =
     (if openingInbox st then onOpenInbox E now err (st\<lparr>openingInbox := False\<rparr>) else st)"
| "step E (Tick now) st = (if checkInterval st then checkMail E now st else st)"
| "step E (SearchCb err results) st = onSearch err results st"
| "step E (FallbackCb now err results) st = onFallbackSearch E now err results st"
| "step E (HeaderParsed now err emailId parsed) st = onHeaderParsed E now err emailId parsed st"
| "step E FetchError st = log_line FetchFailed st"
| "step E (FullParsed now err fullParsed emailId) st = onFullParsed E now err fullParsed emailId st"
| "step E (FullFetchError emailId) st = mark emailId (log_line FullFetchFailed st)"
| "step E (BoxesCb allBoxes) st = (if switchPhase st = AwaitBoxes then onBoxes E allBoxes st else st)"
| "step E (CloseBoxCb err) st =
     (case switchPhase st of AwaitClose junkBox \<Rightarrow> onCloseBox junkBox err st | _ \<Rightarrow> st)"
| "step E (OpenJunkCb now err) st =
     (case switchPhase st of AwaitOpen junkBox \<Rightarrow> onOpenJunk E now junkBox err st | _ \<Rightarrow> st)"
| "step E (ImapError msg) st = (if onError st then onImapError msg (st\<lparr>onError := False\<rparr>) else st)"
| "step E ImapEnd st = (if onEnd st then onImapEnd (st\<lparr>onEnd := False\<rparr>) else st)"

definition run :: "env \<Rightarrow> event list \<Rightarrow> session \<Rightarrow> session" where
  "run E es st = foldl (\<lambda>s e. step E e s) st es"

section \<open>What a step adds to the calls\<close>

text \<open>The calls made between two states, and whether a call fetches a given identifier.\<close>

definition new_calls :: "session \<Rightarrow> session \<Rightarrow> action list" where
  "new_calls st st' = drop (length (calls st)) (calls st')"

fun fetches :: "nat \<Rightarrow> action \<Rightarrow> bool" where
  "fetches i (FetchHeaders ids) = (i \<in> set ids)"
| "fetches i (FetchFull j) = (i = j)"
| "fetches i a = False"

text \<open>A poll tick and the completions of its two searches.\<close>

fun poll_event :: "event \<Rightarrow> bool" where
  "poll_event (Tick now) = True"
| "poll_event (SearchCb err results) = True"
| "poll_event (FallbackCb now err results) = True"
| "poll_event e = False"

section \<open>Example data\<close>

text \<open>
  \<^verbatim>\<open>toLowerCase\<close> on ASCII strings, on which it is what the runtime computes; the
  examples below are ASCII.
\<close>

definition lower_ascii :: "jsstring \<Rightarrow> jsstring" where
  "lower_ascii s = map (\<lambda>u. if 65 \<le> u \<and> u \<le> 90 then u + 32 else u) s"

text \<open>A call for \<^verbatim>\<open>bob@example.com\<close> with the default wait, started at time 0.\<close>

definition E0 :: env where
  "E0 = \<lparr>targetEmail = js ''bob@example.com'', maxWaitTime = 120000, startTime = 0,
          toLowerCase = lower_ascii, cleanHtml = (\<lambda>h. h)\<rparr>"

text \<open>The first scenario of the specification: the code is in the subject.\<close>

definition msg_subject_code :: parsed where
  "msg_subject_code = \<lparr>p_subject = Some (js ''Your Windsurf code 482913''),
     p_from = Some (js ''noreply@windsurf.com''), p_to = Some (js ''bob@example.com''),
     p_date = Some 1000, p_text = None, p_html = None\<rparr>"

text \<open>A session polling the inbox: connected, the inbox open, the timer set.\<close>

definition polling :: session where
  "polling = run E0 [LibState Authenticated, Ready, OpenInboxCb 1000 None] session0"

section \<open>Round trips that fail or find nothing\<close>





section \<open>Teardown and late completions\<close>

text \<open>The two calls \<^verbatim>\<open>cleanup\<close> can make.\<close>

fun teardown_call :: "action \<Rightarrow> bool" where
  "teardown_call EndConnection = True"
| "teardown_call ClearInterval = True"
| "teardown_call a = False"

text \<open>The completion of a search, of a header fetch or of a full fetch.\<close>

fun late_completion :: "event \<Rightarrow> bool" where
  "late_completion (SearchCb err results) = True"
| "late_completion (FallbackCb now err results) = True"
| "late_completion (HeaderParsed now err emailId parsed) = True"
| "late_completion FetchError = True"
| "late_completion (FullParsed now err parsed emailId) = True"
| "late_completion (FullFetchError emailId) = True"
| "late_completion e = False"


text \<open>
  The polling session after its first search found message 7, the message of the first
  scenario: the header callback has resolved the call from the subject.
\<close>

definition resolved_by_subject :: session where
  "resolved_by_subject =
     run E0 [SearchCb None (Some [7]), HeaderParsed 1200 False (Some 7) msg_subject_code] polling"





section \<open>Invariants of a session\<close>

text \<open>The calls \<^verbatim>\<open>cleanup\<close> makes in a given state.\<close>

definition teardown :: "session \<Rightarrow> action list" where
  "teardown st = (if checkInterval st then [ClearInterval] else [])
                 @ (if imapState st \<noteq> Disconnected then [EndConnection] else [])"

text \<open>Outcomes are recorded only together with the resolved flag, one at most.\<close>

definition outcome_inv :: "session \<Rightarrow> bool" where
  "outcome_inv st = (length (settled st) \<le> 1 \<and> (isResolved st \<or> settled st = []))"



section \<open>More example data\<close>

text \<open>A message whose only sign of provenance is the word "verification" in its subject.\<close>

definition msg_verification :: parsed where
  "msg_verification = \<lparr>p_subject = Some (js ''Email verification 482913''),
     p_from = Some (js ''noreply@example.com''), p_to = Some (js ''bob@example.com''),
     p_date = Some 1000, p_text = None, p_html = None\<rparr>"

text \<open>The message of the first scenario, addressed to somebody else.\<close>

definition msg_for_alice :: parsed where
  "msg_for_alice = msg_subject_code\<lparr>p_to := Some (js ''alice@example.com'')\<rparr>"

text \<open>
  A message for somebody else with the code in its text: its recipient field has the
  local part of the target but not its address, and the text names neither.
\<close>

definition msg_text_for_bobby :: parsed where
  "msg_text_for_bobby = \<lparr>p_subject = Some (js ''Windsurf sign-in''),
     p_from = Some (js ''noreply@windsurf.com''), p_to = Some (js ''bobby@example.com''),
     p_date = Some 1000, p_text = Some (js ''Your verification code: 7Q3K9Z''),
     p_html = None\<rparr>"



section \<open>Runs of six digits in a subject\<close>

text \<open>Six digits start at index \<open>k\<close> of \<open>s\<close>.\<close>

definition six_digits_at :: "jsstring \<Rightarrow> nat \<Rightarrow> bool" where
  "six_digits_at s k = (k + 6 \<le> length s \<and> list_all digit (take 6 (drop k s)))"

text \<open>
  Six digits start at index \<open>k\<close>; before them is the start of the string or a code unit
  of the class \<open>before\<close>, after them the end of the string or a code unit of the class
  \<open>after\<close>.
\<close>

definition flanked_run :: "(int \<Rightarrow> bool) \<Rightarrow> (int \<Rightarrow> bool) \<Rightarrow> jsstring \<Rightarrow> nat \<Rightarrow> bool" where
  "flanked_run before after s k =
     (six_digits_at s k \<and> (k = 0 \<or> before (s ! (k - 1)))
      \<and> (k + 6 = length s \<or> after (s ! (k + 6))))"

text \<open>
  The run of the specification: whitespace, a hyphen or a colon, or an edge, on both
  sides.
\<close>

definition spec_flanked :: "jsstring \<Rightarrow> nat \<Rightarrow> bool" where
  "spec_flanked s k = flanked_run lead_flank lead_flank s k"

text \<open>The run the subject pattern asks for: no colon after the digits.\<close>

definition code_flanked :: "jsstring \<Rightarrow> nat \<Rightarrow> bool" where
  "code_flanked s k = flanked_run lead_flank trail_flank s k"

text \<open>What follows the first alternative of the subject pattern, matched from index \<open>j\<close>.\<close>

definition subject_tail :: "jsstring \<Rightarrow> nat \<Rightarrow> mstate list" where
  "subject_tail s j =
     (if six_digits_at s j
      then (if j + 6 < length s \<and> trail_flank (s ! (j + 6))
            then [(j + 7, Str (take 6 (drop j s)))] else [])
           @ (if j + 6 = length s then [(j + 6, Str (take 6 (drop j s)))] else [])
      else [])"

text \<open>A subject with a colon right after the code, and a subject with two codes.\<close>

definition subject_colon_after :: jsstring where
  "subject_colon_after = js ''Windsurf 482913: your sign-in code''"

definition msg_colon_after :: parsed where
  "msg_colon_after = msg_subject_code\<lparr>p_subject := Some subject_colon_after\<rparr>"

section \<open>Properties of the fetch list\<close>

lemma sorted_desc_take_drop:
  "sorted (rev zs) \<Longrightarrow> y \<in> set (take n zs) \<Longrightarrow> x \<in> set (drop n zs) \<Longrightarrow> (x::nat) \<le> y"
proof -
  assume s: "sorted (rev zs)" and y: "y \<in> set (take n zs)" and x: "x \<in> set (drop n zs)"
  have "rev zs = rev (drop n zs) @ rev (take n zs)"
    by (metis append_take_drop_id rev_append)
  with s have "sorted (rev (drop n zs) @ rev (take n zs))" by simp
  then have "\<forall>a\<in>set (rev (drop n zs)). \<forall>b\<in>set (rev (take n zs)). a \<le> b"
    by (simp add: sorted_append)
  with x y show ?thesis by simp
qed

lemma sorted_rev_take: "sorted (rev zs) \<Longrightarrow> sorted (rev (take n (zs::nat list)))"
proof -
  assume s: "sorted (rev zs)"
  have "rev zs = rev (drop n zs) @ rev (take n zs)"
    by (metis append_take_drop_id rev_append)
  with s show ?thesis by (simp add: sorted_append)
qed

text \<open>
  Claim C10. One processing of a search result issues at most one header fetch. Its
  list \<open>ids\<close> holds the new (not yet processed) identifiers of the result, at most ten
  of them (all of them when there are at most ten), in descending order, and every new
  identifier left out is at most as large as every identifier fetched. When no
  identifier is new, nothing is fetched and the session is unchanged.
\<close>

theorem fetch_newest_ten:
  "let new = filter (\<lambda>i. i \<notin> processedEmails st) results;
       ids = take 10 (sort_desc new)
   in processSearchResults results st = (if new = [] then st else call (FetchHeaders ids) st)
      \<and> length ids = min 10 (length new)
      \<and> sorted (rev ids)
      \<and> set ids \<subseteq> set new
      \<and> (\<forall>y\<in>set ids. \<forall>x\<in>set new. x \<in> set ids \<or> x \<le> y)"
proof -
  define new where "new = filter (\<lambda>i. i \<notin> processedEmails st) results"
  define ids where "ids = take 10 (sort_desc new)"
  have sd: "sorted (rev (sort_desc new))" by (simp add: sort_desc_def)
  have set_sd: "set (sort_desc new) = set new" by (simp add: sort_desc_def)
  have 1: "processSearchResults results st = (if new = [] then st else call (FetchHeaders ids) st)"
    by (simp add: processSearchResults_def new_def ids_def Let_def)
  have 2: "length ids = min 10 (length new)"
    by (simp add: ids_def sort_desc_def min_def)
  have 3: "sorted (rev ids)" unfolding ids_def using sd by (rule sorted_rev_take)
  have 4: "set ids \<subseteq> set new" unfolding ids_def using set_take_subset set_sd by fastforce
  have 5: "\<forall>y\<in>set ids. \<forall>x\<in>set new. x \<in> set ids \<or> x \<le> y"
  proof (intro ballI)
    fix y x assume y: "y \<in> set ids" and x: "x \<in> set new"
    have "set (sort_desc new) = set (take 10 (sort_desc new)) \<union> set (drop 10 (sort_desc new))"
      by (metis append_take_drop_id set_append)
    with x set_sd have "x \<in> set ids \<or> x \<in> set (drop 10 (sort_desc new))"
      unfolding ids_def by blast
    then show "x \<in> set ids \<or> x \<le> y"
      using sorted_desc_take_drop[OF sd] y ids_def by blast
  qed
  from 1 2 3 4 5 show ?thesis by (simp add: new_def ids_def Let_def)
qed

theorem fetch_newest_ten_witness:
  "calls (processSearchResults [3, 1, 4, 15, 9, 2, 6, 5, 35, 8, 97, 93, 23, 11]
            (session0\<lparr>processedEmails := {4, 97}\<rparr>))
     = [Connect, FetchHeaders [93, 35, 23, 15, 11, 9, 8, 6, 5, 3]]"
  using fetch_newest_ten [of "session0\<lparr>processedEmails := {4, 97}\<rparr>"
     "[3, 1, 4, 15, 9, 2, 6, 5, 35, 8, 97, 93, 23, 11]"]
  by (simp add: Let_def sort_desc_def session0_def call_def)

section \<open>The age check\<close>

lemma polling_eq: "polling = \<lparr>checkInterval = True, isResolved = False, currentBox = Some INBOX,
     junkBoxChecked = False, processedEmails = {}, imapState = Authenticated,
     settled = [], calls = [Connect, OpenBox INBOX, SearchUnseen, SetInterval], logged = [],
     onReady = False, onError = True, onEnd = True, openingInbox = False,
     switchPhase = NotSwitching\<rparr>"
  by (simp add: polling_def run_def session0_def call_def onOpenInbox_def checkMail_def E0_def
        truthy_def INBOX_def js_def)

text \<open>
  Claim C7. A message dated more than two minutes before the time of evaluation is
  discarded by the header callback and by \<^verbatim>\<open>processEmail\<close>, whatever its other fields,
  the target and the session are: the header callback only marks it processed (or does
  nothing, when it would not have looked at the message at all), \<^verbatim>\<open>processEmail\<close>
  returns false and at most marks it. Neither settles the call, cleans up or fetches.
\<close>

theorem stale_message_rejected:
  assumes "p_date parsed = Some d" and "now - d > 2 * 60 * 1000"
  shows "onHeaderParsed E now err emailId parsed st
           = (if err \<or> emailId = None \<or> emailId = Some 0 \<or> isResolved st then st
              else mark (the emailId) st)
       \<and> processEmail E now parsed uid st
           = (False, if isResolved st \<or> uid \<in> processedEmails st then st else mark uid st)"
  using assms
  by (simp add: onHeaderParsed_def processEmail_def emailAge_def maxEmailAge_def Let_def
           split: option.split)

text \<open>
  At 121001 ms the message of the first scenario, dated 1000 ms, is discarded; one
  millisecond earlier it resolves the call.
\<close>

theorem stale_message_rejected_witness:
  "onHeaderParsed E0 121001 False (Some 7) msg_subject_code polling = mark 7 polling
   \<and> processEmail E0 121001 msg_subject_code 7 polling = (False, mark 7 polling)
   \<and> settled (mark 7 polling) = []
   \<and> settled (onHeaderParsed E0 121000 False (Some 7) msg_subject_code polling)
        = [Resolve (Str (js ''482913''))]"
proof -
  have d: "p_date msg_subject_code = Some 1000" by (simp add: msg_subject_code_def)
  have a: "(121001::int) - 1000 > 2 * 60 * 1000" by simp
  have r: "isResolved polling = False" "processedEmails polling = {}" "settled polling = []"
    by (simp_all add: polling_eq)
  have m: "str_match (js ''Your Windsurf code 482913'') subject_re = Some (Str (js ''482913''))"
    by code_simp
  have w: "isWindsurf E0 (js ''Your Windsurf code 482913'') (js ''noreply@windsurf.com'')"
    by code_simp
  have t: "isTargetEmail_header E0 (js ''bob@example.com'')"
    by code_simp
  have fresh: "settled (onHeaderParsed E0 121000 False (Some 7) msg_subject_code polling)
        = [Resolve (Str (js ''482913''))]"
    using m w t r
    by (simp add: onHeaderParsed_def msg_subject_code_def emailAge_def or_empty_def Let_def
          finish_def cleanup_def mark_def call_def)
  show ?thesis
    using stale_message_rejected [OF d a, of E0 False "Some 7" polling 7] r fresh
    by (simp add: mark_def)
qed

section \<open>The set of processed identifiers\<close>

lemmas handler_defs = call_def log_line_def mark_def cleanup_def finish_def checkMail_def
  processSearchResults_def switchToNextBox_def onSearch_def onFallbackSearch_def
  onHeaderParsed_def onFullParsed_def onBoxes_def onCloseBox_def onOpenJunk_def onOpenInbox_def
  onImapError_def onImapEnd_def

lemma processEmail_html_cases:
  "processEmail_html E parsed st = (False, st)
   \<or> (\<exists>v. processEmail_html E parsed st = (True, finish (Resolve v) st))"
  by (auto simp: processEmail_html_def Let_def split: option.split)

lemma processEmail_text_cases:
  "processEmail_text E parsed st = (False, st)
   \<or> (\<exists>v. processEmail_text E parsed st = (True, finish (Resolve v) st))"
  using processEmail_html_cases [of E parsed st]
  by (auto simp: processEmail_text_def Let_def split: option.split)

lemma processEmail_cases:
  "processEmail E now parsed uid st = (False, st)
   \<or> processEmail E now parsed uid st = (False, mark uid st)
   \<or> (\<exists>v. processEmail E now parsed uid st = (True, finish (Resolve v) (mark uid st)))"
  using processEmail_text_cases [of E parsed "mark uid st"]
  by (auto simp: processEmail_def Let_def split: option.split)

lemma processed_finish [simp]: "processedEmails (finish oc st) = processedEmails st"
  by (simp add: finish_def cleanup_def call_def Let_def)

lemma processed_mark [simp]: "processedEmails (mark i st) = insert i (processedEmails st)"
  by (simp add: mark_def)

lemma processed_checkMail [simp]: "processedEmails (checkMail E now st) = processedEmails st"
  by (simp add: checkMail_def call_def)

lemma processed_mono_step: "processedEmails st \<subseteq> processedEmails (step E e st)"
proof (cases e)
  case (FullParsed now err p i)
  then show ?thesis using processEmail_cases [of E now p i st]
    by (auto simp: onFullParsed_def)
next
  case (HeaderParsed now err i p)
  then show ?thesis
    by (auto simp: onHeaderParsed_def Let_def call_def split: option.split)
qed (auto simp: handler_defs Let_def split: option.split switch_phase.split)

lemma run_Cons: "run E (e # es) st = run E es (step E e st)"
  by (simp add: run_def)

lemma run_Nil: "run E [] st = st"
  by (simp add: run_def)

lemma processed_mono_run: "processedEmails st \<subseteq> processedEmails (run E es st)"
proof (induction es arbitrary: st)
  case Nil
  then show ?case by (simp add: run_Nil)
next
  case (Cons e es)
  have "processedEmails st \<subseteq> processedEmails (step E e st)" by (rule processed_mono_step)
  also have "\<dots> \<subseteq> processedEmails (run E es (step E e st))" by (rule Cons.IH)
  finally show ?case by (simp add: run_Cons)
qed

lemma poll_no_refetch:
  assumes "i \<in> processedEmails st" and "poll_event e"
  shows "\<not> list_ex (fetches i) (new_calls st (step E e st))"
  using assms
  by (cases e) (auto simp: new_calls_def handler_defs Let_def no_results_def or_nil_def sort_desc_def
       dest: in_set_takeD split: option.split)

text \<open>
  Claim C8. The set of processed identifiers only grows: whatever events \<open>es\<close> follow, it
  contains what it contained. Once an identifier \<open>i\<close> is in it, no later poll event (a
  timer tick or the completion of one of its searches) makes a call that fetches \<open>i\<close>,
  be it the headers or the full message, and \<^verbatim>\<open>processEmail\<close> on \<open>i\<close> returns false and
  leaves the session as it is.
\<close>

theorem seen_identifier_skipped:
  "processedEmails st \<subseteq> processedEmails (run E es st)
   \<and> (i \<in> processedEmails st \<longrightarrow> poll_event e \<longrightarrow>
        \<not> list_ex (fetches i) (new_calls (run E es st) (step E e (run E es st))))
   \<and> (i \<in> processedEmails st \<longrightarrow>
        processEmail E now parsed i (run E es st) = (False, run E es st))"
proof -
  have m: "processedEmails st \<subseteq> processedEmails (run E es st)" by (rule processed_mono_run)
  have "i \<in> processedEmails (run E es st)" if "i \<in> processedEmails st"
    using that m by blast
  then show ?thesis using m poll_no_refetch [of i "run E es st" e E]
    by (auto simp: processEmail_def)
qed

text \<open>
  Identifier 7 was discarded; after a tick the search finds 7 and 9, and only 9 is
  fetched.
\<close>

theorem seen_identifier_skipped_witness:
  "7 \<in> processedEmails (mark 7 polling)
   \<and> poll_event (SearchCb None (Some [7, 9]))
   \<and> new_calls (run E0 [Tick 3000] (mark 7 polling))
        (step E0 (SearchCb None (Some [7, 9])) (run E0 [Tick 3000] (mark 7 polling)))
      = [FetchHeaders [9]]
   \<and> processEmail E0 3500 msg_subject_code 7 (run E0 [Tick 3000] (mark 7 polling))
      = (False, run E0 [Tick 3000] (mark 7 polling))"
proof -
  have a: "7 \<in> processedEmails (mark 7 polling)" by (simp add: mark_def)
  have b: "poll_event (SearchCb None (Some [7, 9]))" by simp
  have c: "new_calls (run E0 [Tick 3000] (mark 7 polling))
        (step E0 (SearchCb None (Some [7, 9])) (run E0 [Tick 3000] (mark 7 polling)))
      = [FetchHeaders [9]]"
    by (simp add: run_def polling_eq new_calls_def handler_defs E0_def truthy_def INBOX_def js_def
          no_results_def or_nil_def sort_desc_def Let_def)
  show ?thesis
    using seen_identifier_skipped [of "mark 7 polling" E0 "[Tick 3000]" 7
        "SearchCb None (Some [7, 9])" 3500 msg_subject_code] a b c
    by simp
qed

section \<open>Transient failures and the deadline\<close>












section \<open>At most one outcome\<close>

lemma outcome_inv_step:
  assumes "outcome_inv st"
  shows "outcome_inv (step E e st)"
proof (cases e)
  case (FullParsed now err p i)
  then show ?thesis using assms processEmail_cases [of E now p i st]
    by (auto simp: onFullParsed_def outcome_inv_def finish_def cleanup_def call_def mark_def Let_def)
qed (use assms in \<open>auto simp: outcome_inv_def handler_defs Let_def
        split: option.split switch_phase.split if_splits\<close>)

lemma outcome_inv_run: "outcome_inv st \<Longrightarrow> outcome_inv (run E es st)"
proof (induction es arbitrary: st)
  case Nil
  then show ?case by (simp add: run_Nil)
next
  case (Cons e es)
  then show ?case using outcome_inv_step [of st E e] by (simp add: run_Cons)
qed

lemma resolved_step:
  assumes "isResolved st"
  shows "settled (step E e st) = settled st \<and> isResolved (step E e st)"
  using assms
  by (cases e)
     (auto simp: handler_defs Let_def split: option.split switch_phase.split if_splits)

lemma resolved_run:
  assumes "isResolved st"
  shows "settled (run E es st) = settled st \<and> isResolved (run E es st)"
  using assms
proof (induction es arbitrary: st)
  case Nil
  then show ?case by (simp add: run_Nil)
next
  case (Cons e es)
  then show ?case using resolved_step [of st E e] by (simp add: run_Cons)
qed

lemma late_completion_no_teardown:
  assumes "isResolved st" and "late_completion e"
  shows "filter teardown_call (new_calls st (step E e st)) = []
         \<and> checkInterval (step E e st) = checkInterval st"
  using assms
  by (cases e)
     (auto simp: new_calls_def handler_defs Let_def no_results_def
           split: option.split if_splits)

lemma late_error_teardown:
  "new_calls st (step E (ImapError msg) st)
     = (if onError st
        then (if checkInterval st then [ClearInterval] else [])
             @ (if imapState st \<noteq> Disconnected then [EndConnection] else [])
        else [])"
  by (simp add: new_calls_def handler_defs Let_def)

lemma late_end_teardown:
  "new_calls st (step E ImapEnd st)
     = (if onEnd st
        then (if checkInterval st then [ClearInterval] else [])
             @ (if imapState st \<noteq> Disconnected then [EndConnection] else [])
        else [])"
  by (simp add: new_calls_def handler_defs Let_def)

lemma resolved_by_subject_eq:
  "resolved_by_subject = \<lparr>checkInterval = False, isResolved = True, currentBox = Some INBOX,
     junkBoxChecked = False, processedEmails = {7}, imapState = Authenticated,
     settled = [Resolve (Str (js ''482913''))],
     calls = [Connect, OpenBox INBOX, SearchUnseen, SetInterval, FetchHeaders [7],
              ClearInterval, EndConnection],
     logged = [], onReady = False, onError = True, onEnd = True, openingInbox = False,
     switchPhase = NotSwitching\<rparr>"
proof -
  have m: "str_match (js ''Your Windsurf code 482913'') subject_re = Some (Str (js ''482913''))"
    by code_simp
  have w: "isWindsurf E0 (js ''Your Windsurf code 482913'') (js ''noreply@windsurf.com'')"
    by code_simp
  have t: "isTargetEmail_header E0 (js ''bob@example.com'')"
    by code_simp
  show ?thesis
    using m w t
    by (simp add: resolved_by_subject_def run_def polling_eq handler_defs no_results_def or_nil_def
          sort_desc_def msg_subject_code_def emailAge_def or_empty_def Let_def)
qed

text \<open>
  Claim C1, as stated, fails. The call is resolved from the subject of message 7, and
  \<^verbatim>\<open>cleanup\<close> has ended the connection once; the library still reports the connection
  as authenticated when its \<^verbatim>\<open>error\<close> event fires. The handler runs \<^verbatim>\<open>cleanup\<close>
  before it looks at the resolved flag, and the connection is ended a second time. The
  outcome is not changed. Nor is the outcome produced exactly once: when the connection
  ends while the session is polling, the \<^verbatim>\<open>end\<close> handler clears the timer and settles
  nothing, and no tick is left to reject the call after the deadline.
\<close>

theorem late_error_ends_connection_twice:
  "isResolved resolved_by_subject
   \<and> settled resolved_by_subject = [Resolve (Str (js ''482913''))]
   \<and> count_list (calls resolved_by_subject) EndConnection = 1
   \<and> imapState resolved_by_subject = Authenticated
   \<and> settled (step E0 (ImapError (js ''ECONNRESET'')) resolved_by_subject)
        = [Resolve (Str (js ''482913''))]
   \<and> count_list (calls (step E0 (ImapError (js ''ECONNRESET'')) resolved_by_subject))
        EndConnection = 2
   \<and> settled (run E0 [ImapEnd, Tick 130000] polling) = []
   \<and> \<not> checkInterval (run E0 [ImapEnd, Tick 130000] polling)"
  by (simp add: resolved_by_subject_eq polling_eq run_def handler_defs Let_def)

text \<open>
  Claim C1, amended. Along every sequence of events of a session \<^verbatim>\<open>resolve\<close> and
  \<^verbatim>\<open>reject\<close> are called at most once in all. Once the session is resolved, no
  sequence of events changes the outcome or the resolved flag. The completion of a
  search, of a header fetch or of a full fetch that arrives after resolution makes no
  call of \<^verbatim>\<open>cleanup\<close>'s and leaves the timer as it is. The \<^verbatim>\<open>error\<close> and the
  \<^verbatim>\<open>end\<close> event of the connection, each handled once, run \<^verbatim>\<open>cleanup\<close> whether or not
  the session is resolved: it clears the timer if it is set and ends the connection
  again unless the library reports it disconnected.
\<close>

theorem single_outcome:
  "length (settled (run E es session0)) \<le> 1
   \<and> (isResolved st \<longrightarrow> settled (run E es st) = settled st \<and> isResolved (run E es st))
   \<and> (isResolved st \<longrightarrow> late_completion e \<longrightarrow>
        filter teardown_call (new_calls st (step E e st)) = []
        \<and> checkInterval (step E e st) = checkInterval st)
   \<and> new_calls st (step E (ImapError msg) st)
        = (if onError st
           then (if checkInterval st then [ClearInterval] else [])
                @ (if imapState st \<noteq> Disconnected then [EndConnection] else [])
           else [])
   \<and> new_calls st (step E ImapEnd st)
        = (if onEnd st
           then (if checkInterval st then [ClearInterval] else [])
                @ (if imapState st \<noteq> Disconnected then [EndConnection] else [])
           else [])"
proof -
  have "outcome_inv session0" by (simp add: outcome_inv_def session0_def)
  then have "outcome_inv (run E es session0)" by (rule outcome_inv_run)
  then have 1: "length (settled (run E es session0)) \<le> 1" by (simp add: outcome_inv_def)
  show ?thesis
    using 1 resolved_run [of st E es] late_completion_no_teardown [of st e E]
      late_error_teardown [of st E msg] late_end_teardown [of st E]
    by blast
qed

text \<open>
  After the resolution from the subject, a second header parse of the same message, a
  late search result and a timeout tick change neither the outcome nor the teardown
  calls.
\<close>

theorem single_outcome_witness:
  "isResolved resolved_by_subject
   \<and> late_completion (HeaderParsed 1300 False (Some 7) msg_subject_code)
   \<and> settled (run E0 [HeaderParsed 1300 False (Some 7) msg_subject_code,
                      SearchCb None (Some [8]), Tick 130000] resolved_by_subject)
        = [Resolve (Str (js ''482913''))]
   \<and> new_calls resolved_by_subject
        (step E0 (HeaderParsed 1300 False (Some 7) msg_subject_code) resolved_by_subject) = []
   \<and> length (settled (run E0 [LibState Authenticated, Ready, OpenInboxCb 1000 None,
        SearchCb None (Some [7]), HeaderParsed 1200 False (Some 7) msg_subject_code,
        ImapError (js ''ECONNRESET''), ImapEnd] session0)) \<le> 1"
proof -
  have r: "isResolved resolved_by_subject" by (simp add: resolved_by_subject_eq)
  have s: "settled resolved_by_subject = [Resolve (Str (js ''482913''))]"
    by (simp add: resolved_by_subject_eq)
  have l: "late_completion (HeaderParsed 1300 False (Some 7) msg_subject_code)" by simp
  have n: "new_calls resolved_by_subject
        (step E0 (HeaderParsed 1300 False (Some 7) msg_subject_code) resolved_by_subject) = []"
    using r by (simp add: new_calls_def onHeaderParsed_def)
  show ?thesis
    using single_outcome [where E = E0 and st = resolved_by_subject
        and es = "[HeaderParsed 1300 False (Some 7) msg_subject_code,
                      SearchCb None (Some [8]), Tick 130000]"
        and e = "HeaderParsed 1300 False (Some 7) msg_subject_code"] 
      single_outcome [where E = E0 and es = "[LibState Authenticated, Ready, OpenInboxCb 1000 None,
        SearchCb None (Some [7]), HeaderParsed 1200 False (Some 7) msg_subject_code,
        ImapError (js ''ECONNRESET''), ImapEnd]"]
      r s l n
    by (simp del: step.simps)
qed

section \<open>The switch to the junk box\<close>

lemma calls_cleanup: "calls (cleanup st) = calls st @ teardown st"
  by (simp add: cleanup_def teardown_def call_def Let_def)

lemma calls_finish: "calls (finish oc st) = calls st @ teardown st"
  by (simp add: finish_def calls_cleanup Let_def)

lemma calls_mark: "calls (mark i st) = calls st"
  by (simp add: mark_def)

lemma teardown_mark: "teardown (mark i st) = teardown st"
  by (simp add: mark_def teardown_def)





























section \<open>Provenance\<close>

text \<open>
  Claim C4 holds for \<^verbatim>\<open>processEmail\<close> and fails for the header callback, through
  which every message passes first: its provenance test lacks the test for
  "verification", and "verification" does not contain "verify". A fresh message to the
  target whose subject is "Email verification 482913", from a sender without a vendor
  name, passes the provenance test of \<^verbatim>\<open>processEmail\<close>, which would resolve the call
  with 482913, but the header callback marks it processed and drops it: no outcome, no
  fetch of the full message.
\<close>

theorem verification_subject_dropped_by_header:
  "isWindsurfEmail E0 (js ''Email verification 482913'') (js ''noreply@example.com'')
   \<and> \<not> isWindsurf E0 (js ''Email verification 482913'') (js ''noreply@example.com'')
   \<and> isTargetEmail_header E0 (js ''bob@example.com'')
   \<and> emailAge 2000 msg_verification = 1000
   \<and> onHeaderParsed E0 2000 False (Some 7) msg_verification polling = mark 7 polling
   \<and> settled (mark 7 polling) = []
   \<and> new_calls polling (mark 7 polling) = []
   \<and> fst (processEmail E0 2000 msg_verification 7 polling)
   \<and> settled (snd (processEmail E0 2000 msg_verification 7 polling))
        = [Resolve (Str (js ''482913''))]"
proof -
  have a: "isWindsurfEmail E0 (js ''Email verification 482913'') (js ''noreply@example.com'')"
    by code_simp
  have b: "\<not> isWindsurf E0 (js ''Email verification 482913'') (js ''noreply@example.com'')"
    by code_simp
  have c: "isTargetEmail_header E0 (js ''bob@example.com'')"
    by code_simp
  have m: "str_match (js ''Email verification 482913'') subject_re = Some (Str (js ''482913''))"
    by code_simp
  have d: "emailAge 2000 msg_verification = 1000"
    by (simp add: emailAge_def msg_verification_def)
  have h: "onHeaderParsed E0 2000 False (Some 7) msg_verification polling = mark 7 polling"
    using b d
    by (simp add: onHeaderParsed_def polling_eq Let_def)
       (simp add: msg_verification_def or_empty_def)
  have p: "processEmail E0 2000 msg_verification 7 polling
             = (True, finish (Resolve (Str (js ''482913''))) (mark 7 polling))"
    using d
    by (simp add: processEmail_def polling_eq Let_def maxEmailAge_def)
       (simp add: a m msg_verification_def or_empty_def)
  show ?thesis
    using a b c d h p
    by (simp add: polling_eq mark_def new_calls_def finish_def cleanup_def call_def Let_def)
qed

section \<open>The recipient\<close>

text \<open>
  Claim C6. Containment is tested as the source tests it: in the header callback the
  lower-cased recipient field against the lower-cased target and its lower-cased local
  part; in \<^verbatim>\<open>processEmail\<close> the recipient field against the target as it is, and the
  lower-cased body (the text, or the HTML when there is no text) against the lower-cased
  target and local part. A message whose recipient field contains neither is dropped by
  the header callback: it is marked processed, or the session is unchanged when the
  callback would not have looked at it, and nothing is settled or fetched. A message
  that \<^verbatim>\<open>processEmail\<close> gets with no code in its subject and a body, where neither the
  recipient field nor the body passes, makes \<^verbatim>\<open>processEmail\<close> return false with at
  most the identifier marked.
\<close>

theorem recipient_mismatch_rejected:
  "(\<not> str_includes (toLowerCase E (or_empty (p_to parsed))) (toLowerCase E (targetEmail E)) \<longrightarrow>
    \<not> str_includes (toLowerCase E (or_empty (p_to parsed)))
         (toLowerCase E (split_at_0 (targetEmail E))) \<longrightarrow>
      onHeaderParsed E now err emailId parsed st
        = (if err \<or> emailId = None \<or> emailId = Some 0 \<or> isResolved st then st
           else mark (the emailId) st))
   \<and> (str_match (or_empty (p_subject parsed)) subject_re = None \<longrightarrow>
       body = (if truthy (p_text parsed) then p_text parsed else p_html parsed) \<longrightarrow>
       truthy body \<longrightarrow>
       \<not> str_includes (or_empty (p_to parsed)) (targetEmail E) \<longrightarrow>
       \<not> str_includes (toLowerCase E (or_empty body)) (toLowerCase E (targetEmail E)) \<longrightarrow>
       \<not> str_includes (toLowerCase E (or_empty body))
            (toLowerCase E (split_at_0 (targetEmail E))) \<longrightarrow>
         processEmail E now parsed uid st
           = (False, if isResolved st \<or> uid \<in> processedEmails st then st else mark uid st))"
proof -
  have 1: "onHeaderParsed E now err emailId parsed st
        = (if err \<or> emailId = None \<or> emailId = Some 0 \<or> isResolved st then st
           else mark (the emailId) st)"
    if "\<not> str_includes (toLowerCase E (or_empty (p_to parsed))) (toLowerCase E (targetEmail E))"
      and "\<not> str_includes (toLowerCase E (or_empty (p_to parsed)))
         (toLowerCase E (split_at_0 (targetEmail E)))"
  proof -
    have "\<not> isTargetEmail_header E (or_empty (p_to parsed))"
      using that by (simp add: isTargetEmail_header_def Let_def)
    then show ?thesis
      by (simp add: onHeaderParsed_def Let_def split: option.split)
  qed
  have 2: "processEmail E now parsed uid st
           = (False, if isResolved st \<or> uid \<in> processedEmails st then st else mark uid st)"
    if s: "str_match (or_empty (p_subject parsed)) subject_re = None"
      and b: "body = (if truthy (p_text parsed) then p_text parsed else p_html parsed)"
      and t: "truthy body"
      and n: "\<not> str_includes (or_empty (p_to parsed)) (targetEmail E)"
        "\<not> str_includes (toLowerCase E (or_empty body)) (toLowerCase E (targetEmail E))"
        "\<not> str_includes (toLowerCase E (or_empty body))
            (toLowerCase E (split_at_0 (targetEmail E)))"
  proof -
    have nb: "\<not> isTargetEmail_body E (or_empty (p_to parsed)) (or_empty body)"
      using n by (simp add: isTargetEmail_body_def Let_def)
    have "processEmail_text E parsed s' = (False, s')" for s'
    proof (cases "truthy (p_text parsed)")
      case True
      then show ?thesis using nb b by (simp add: processEmail_text_def Let_def)
    next
      case False
      then show ?thesis using nb b t
        by (simp add: processEmail_text_def processEmail_html_def Let_def)
    qed
    then show ?thesis using s by (simp add: processEmail_def Let_def)
  qed
  from 1 2 show ?thesis by blast
qed

text \<open>
  The message of the first scenario addressed to alice is dropped by the header
  callback although its subject carries a code; the message for bobby is dropped by
  \<^verbatim>\<open>processEmail\<close> although its text carries a labeled code.
\<close>

theorem recipient_mismatch_rejected_witness:
  "\<not> str_includes (toLowerCase E0 (js ''alice@example.com'')) (toLowerCase E0 (targetEmail E0))
   \<and> \<not> str_includes (toLowerCase E0 (js ''alice@example.com''))
         (toLowerCase E0 (split_at_0 (targetEmail E0)))
   \<and> onHeaderParsed E0 2000 False (Some 7) msg_for_alice polling = mark 7 polling
   \<and> str_match (js ''Windsurf sign-in'') subject_re = None
   \<and> cascade patterns (js ''Your verification code: 7Q3K9Z'') = Some (Str (js ''7Q3K9Z''))
   \<and> processEmail E0 2000 msg_text_for_bobby 8 polling = (False, mark 8 polling)
   \<and> settled (mark 8 polling) = []"
proof -
  have a: "\<not> str_includes (toLowerCase E0 (js ''alice@example.com'')) (toLowerCase E0 (targetEmail E0))"
    "\<not> str_includes (toLowerCase E0 (js ''alice@example.com''))
         (toLowerCase E0 (split_at_0 (targetEmail E0)))"
    by code_simp+
  have s: "str_match (js ''Windsurf sign-in'') subject_re = None" by code_simp
  have c: "cascade patterns (js ''Your verification code: 7Q3K9Z'') = Some (Str (js ''7Q3K9Z''))"
    by code_simp
  have n: "\<not> str_includes (js ''bobby@example.com'') (targetEmail E0)"
    "\<not> str_includes (toLowerCase E0 (js ''Your verification code: 7Q3K9Z''))
         (toLowerCase E0 (targetEmail E0))"
    "\<not> str_includes (toLowerCase E0 (js ''Your verification code: 7Q3K9Z''))
         (toLowerCase E0 (split_at_0 (targetEmail E0)))"
    by code_simp+
  have t: "truthy (Some (js ''Your verification code: 7Q3K9Z''))"
    by (simp add: truthy_def js_def)
  have f: "p_to msg_for_alice = Some (js ''alice@example.com'')"
    "p_to msg_text_for_bobby = Some (js ''bobby@example.com'')"
    "p_subject msg_text_for_bobby = Some (js ''Windsurf sign-in'')"
    "p_text msg_text_for_bobby = Some (js ''Your verification code: 7Q3K9Z'')"
    by (simp_all add: msg_for_alice_def msg_text_for_bobby_def)
  have p: "\<not> isResolved polling" "processedEmails polling = {}" "settled polling = []"
    by (simp_all add: polling_eq)
  show ?thesis
    using recipient_mismatch_rejected [where E = E0 and parsed = msg_for_alice
        and now = 2000 and err = False and emailId = "Some 7" and st = polling]
      recipient_mismatch_rejected [where E = E0 and parsed = msg_text_for_bobby
        and now = 2000 and uid = 8 and st = polling
        and body = "Some (js ''Your verification code: 7Q3K9Z'')"]
      a s c n t p
    by (simp add: f or_empty_def mark_def)
qed

section \<open>The order of the patterns\<close>







section \<open>The subject pattern\<close>

lemma iter_rep_single:
  assumes f: "\<And>i c. f i c = (if i < length s \<and> P (s ! i) then [(Suc i, c)] else [])"
  shows "i \<le> length s \<Longrightarrow>
   iter_rep n f i c
     = (if i + n \<le> length s \<and> list_all P (take n (drop i s)) then [(i + n, c)] else [])"
proof (induction n arbitrary: i)
  case 0
  then show ?case by simp
next
  case (Suc n)
  show ?case
  proof (cases "i < length s \<and> P (s ! i)")
    case True
    then have d: "drop i s = s ! i # drop (Suc i) s" by (simp add: Cons_nth_drop_Suc)
    have fi: "f i c = [(Suc i, c)]" using True f [of i c] by simp
    have "iter_rep (Suc n) f i c = concat (map (\<lambda>(j, c'). iter_rep n f j c') (f i c))"
      by (simp only: iter_rep.simps)
    also have "\<dots> = iter_rep n f (Suc i) c"
      by (simp only: fi) simp
    also have "\<dots> = (if Suc i + n \<le> length s \<and> list_all P (take n (drop (Suc i) s))
                     then [(Suc i + n, c)] else [])"
      using True by (intro Suc.IH) simp
    finally show ?thesis using True d by simp
  next
    case False
    have fi: "f i c = []" using False f [of i c] by auto
    have n: "\<not> (i + Suc n \<le> length s \<and> list_all P (take (Suc n) (drop i s)))"
    proof (cases "i < length s")
      case True
      then have d: "drop i s = s ! i # drop (Suc i) s" by (simp add: Cons_nth_drop_Suc)
      from True False have "\<not> P (s ! i)" by simp
      then show ?thesis using d by simp
    next
      case False
      then show ?thesis by simp
    qed
    have "iter_rep (Suc n) f i c = concat (map (\<lambda>(j, c'). iter_rep n f j c') (f i c))"
      by (simp only: iter_rep.simps)
    also have "\<dots> = []" by (simp only: fi) simp
    finally show ?thesis using n by (simp only: if_False)
  qed
qed

lemma digits_group:
  assumes "j \<le> length s"
  shows "rmatch (Grp (Rep 6 (Cls digit))) s j c
     = (if six_digits_at s j then [(j + 6, Str (take 6 (drop j s)))] else [])"
proof -
  define f where "f = rmatch (Cls digit) s"
  have f: "f i c = (if i < length s \<and> digit (s ! i) then [(Suc i, c)] else [])" for i c
    by (simp add: f_def)
  have "rmatch (Rep 6 (Cls digit)) s j c = iter_rep 6 f j c"
    by (simp only: rmatch.simps f_def)
  also have "\<dots> = (if j + 6 \<le> length s \<and> list_all digit (take 6 (drop j s)) then [(j + 6, c)] else [])"
    using f assms by (rule iter_rep_single)
  finally have r: "rmatch (Rep 6 (Cls digit)) s j c
     = (if six_digits_at s j then [(j + 6, c)] else [])"
    by (simp add: six_digits_at_def)
  have "rmatch (Grp (Rep 6 (Cls digit))) s j c
          = map (\<lambda>(j', c'). (j', Str (take (j' - j) (drop j s)))) (rmatch (Rep 6 (Cls digit)) s j c)"
    by (simp only: rmatch.simps)
  then show ?thesis by (simp only: r) simp
qed

lemma flank_or_end:
  "rmatch (Seq (Alt (Cls trail_flank) Eol) Eps) s j c
     = (if j < length s \<and> trail_flank (s ! j) then [(Suc j, c)] else [])
       @ (if j = length s then [(j, c)] else [])"
  by simp

lemma subject_tail_eq:
  assumes "j \<le> length s"
  shows "rmatch (Seq (Grp (Rep 6 (Cls digit))) (Seq (Alt (Cls trail_flank) Eol) Eps)) s j c
           = subject_tail s j"
proof -
  define G where "G = Grp (Rep 6 (Cls digit))"
  define T where "T = Seq (Alt (Cls trail_flank) Eol) Eps"
  have g: "rmatch G s j c = (if six_digits_at s j then [(j + 6, Str (take 6 (drop j s)))] else [])"
    unfolding G_def using assms by (rule digits_group)
  have t: "rmatch T s j' c' = (if j' < length s \<and> trail_flank (s ! j') then [(Suc j', c')] else [])
       @ (if j' = length s then [(j', c')] else [])" for j' c'
    unfolding T_def by (rule flank_or_end)
  have "rmatch (Seq G T) s j c = concat (map (\<lambda>(j', c'). rmatch T s j' c') (rmatch G s j c))"
    by (simp only: rmatch.simps)
  also have "\<dots> = subject_tail s j"
    by (simp add: g t subject_tail_def)
  finally show ?thesis by (simp only: G_def T_def)
qed

lemma subject_re_from:
  assumes "i \<le> length s"
  shows "rmatch subject_re s i Undefined
           = (if i = 0 then subject_tail s 0 else [])
             @ (if i < length s \<and> lead_flank (s ! i) then subject_tail s (Suc i) else [])"
proof -
  define T where "T = Seq (Grp (Rep 6 (Cls digit))) (Seq (Alt (Cls trail_flank) Eol) Eps)"
  define A where "A = Alt Bol (Cls lead_flank)"
  have r: "subject_re = Seq A T"
    by (simp add: subject_re_def seqs_def A_def T_def)
  have a: "rmatch A s i Undefined
             = (if i = 0 then [(0, Undefined)] else [])
               @ (if i < length s \<and> lead_flank (s ! i) then [(Suc i, Undefined)] else [])"
    by (simp add: A_def)
  have t0: "rmatch T s 0 Undefined = subject_tail s 0"
    unfolding T_def by (rule subject_tail_eq) simp
  have t1: "rmatch T s (Suc i) Undefined = subject_tail s (Suc i)" if "i < length s"
    unfolding T_def using that by (intro subject_tail_eq) simp
  have "rmatch (Seq A T) s i Undefined
          = concat (map (\<lambda>(j, c'). rmatch T s j c') (rmatch A s i Undefined))"
    by (simp only: rmatch.simps)
  also have "\<dots> = (if i = 0 then subject_tail s 0 else [])
             @ (if i < length s \<and> lead_flank (s ! i) then subject_tail s (Suc i) else [])"
    using t0 t1 by (auto simp: a)
  finally show ?thesis by (simp only: r)
qed

lemma subject_tail_nonempty:
  "subject_tail s j \<noteq> [] \<longleftrightarrow> six_digits_at s j \<and> (j + 6 = length s \<or> trail_flank (s ! (j + 6)))"
  by (auto simp: subject_tail_def six_digits_at_def)

lemma subject_tail_hd:
  "subject_tail s j \<noteq> [] \<Longrightarrow> snd (hd (subject_tail s j)) = Str (take 6 (drop j s))"
  by (auto simp: subject_tail_def split: if_splits)

lemma subject_re_nonempty:
  assumes "i \<le> length s"
  shows "rmatch subject_re s i Undefined \<noteq> []
         \<longleftrightarrow> (i = 0 \<and> code_flanked s 0) \<or> code_flanked s (Suc i)"
proof -
  have "code_flanked s (Suc i) \<longleftrightarrow> i < length s \<and> lead_flank (s ! i) \<and> subject_tail s (Suc i) \<noteq> []"
    by (auto simp: code_flanked_def flanked_run_def subject_tail_nonempty six_digits_at_def)
  moreover have "code_flanked s 0 \<longleftrightarrow> subject_tail s 0 \<noteq> []"
    by (auto simp: code_flanked_def flanked_run_def subject_tail_nonempty)
  ultimately show ?thesis using assms by (auto simp: subject_re_from)
qed

lemma subject_re_hd:
  assumes "i \<le> length s"
  shows "i = 0 \<and> code_flanked s 0 \<Longrightarrow>
           snd (hd (rmatch subject_re s i Undefined)) = Str (take 6 (drop 0 s))"
    and "\<not> (i = 0 \<and> code_flanked s 0) \<Longrightarrow> code_flanked s (Suc i) \<Longrightarrow>
           snd (hd (rmatch subject_re s i Undefined)) = Str (take 6 (drop (Suc i) s))"
proof -
  have c0: "code_flanked s 0 \<longleftrightarrow> subject_tail s 0 \<noteq> []"
    by (auto simp: code_flanked_def flanked_run_def subject_tail_nonempty)
  have c1: "code_flanked s (Suc i) \<longleftrightarrow> i < length s \<and> lead_flank (s ! i) \<and> subject_tail s (Suc i) \<noteq> []"
    by (auto simp: code_flanked_def flanked_run_def subject_tail_nonempty six_digits_at_def)
  show "i = 0 \<and> code_flanked s 0 \<Longrightarrow>
           snd (hd (rmatch subject_re s i Undefined)) = Str (take 6 (drop 0 s))"
    using assms c0 subject_tail_hd [of s 0] by (simp add: subject_re_from)
  show "\<not> (i = 0 \<and> code_flanked s 0) \<Longrightarrow> code_flanked s (Suc i) \<Longrightarrow>
           snd (hd (rmatch subject_re s i Undefined)) = Str (take 6 (drop (Suc i) s))"
    using assms c0 c1 subject_tail_hd [of s "Suc i"] by (auto simp: subject_re_from)
qed

lemma subject_match_leftmost:
  assumes k: "code_flanked s k" and m: "\<forall>j<k. \<not> code_flanked s j"
  shows "str_match s subject_re = Some (Str (take 6 (drop k s)))"
proof -
  define p where "p = k - 1"
  define Q where "Q = (\<lambda>i. rmatch subject_re s i Undefined \<noteq> [])"
  have kl: "k + 6 \<le> length s" using k by (simp add: code_flanked_def flanked_run_def six_digits_at_def)
  then have pl: "p \<le> length s" "p < Suc (length s)" by (simp_all add: p_def)
  have Qp: "Q p"
  proof (cases k)
    case 0
    then show ?thesis using k pl by (simp add: Q_def p_def subject_re_nonempty)
  next
    case (Suc k')
    then show ?thesis using k pl by (simp add: Q_def p_def subject_re_nonempty)
  qed
  have nQ: "\<not> Q j" if "j < p" for j
  proof -
    have jl: "j \<le> length s" using that pl by simp
    have "0 < k" "Suc j < k" using that by (simp_all add: p_def)
    then have "\<not> code_flanked s 0" "\<not> code_flanked s (Suc j)" using m by blast+
    then show ?thesis using jl by (simp add: Q_def subject_re_nonempty)
  qed
  have f: "List.find Q [0..<Suc (length s)] = Some p"
  proof -
    have "\<exists>i<length [0..<Suc (length s)]. Q ([0..<Suc (length s)] ! i) \<and> p = [0..<Suc (length s)] ! i
            \<and> (\<forall>j<i. \<not> Q ([0..<Suc (length s)] ! j))"
    proof (intro exI [of _ p] conjI allI impI)
      show "p < length [0..<Suc (length s)]" using pl by simp
      show "Q ([0..<Suc (length s)] ! p)" using Qp pl by (simp add: nth_upt del: upt_Suc)
      show "p = [0..<Suc (length s)] ! p" using pl by (simp add: nth_upt del: upt_Suc)
      fix j assume "j < p"
      then show "\<not> Q ([0..<Suc (length s)] ! j)" using nQ pl by (simp add: nth_upt del: upt_Suc)
    qed
    then show ?thesis by (simp only: find_Some_iff)
  qed
  have v: "snd (hd (rmatch subject_re s p Undefined)) = Str (take 6 (drop k s))"
  proof (cases k)
    case 0
    then show ?thesis using k pl subject_re_hd(1) [of p s] by (simp add: p_def)
  next
    case (Suc k')
    then have "\<not> code_flanked s 0" using m by simp
    then show ?thesis using Suc k pl subject_re_hd(2) [of p s] by (simp add: p_def)
  qed
  show ?thesis using f v by (simp add: str_match_def Q_def del: upt_Suc)
qed

lemma subject_match_none:
  assumes "\<forall>k. \<not> code_flanked s k"
  shows "str_match s subject_re = None"
proof -
  have "\<not> (rmatch subject_re s i Undefined \<noteq> [])" if "i \<in> set [0..<Suc (length s)]" for i
  proof -
    have "i \<le> length s" using that by auto
    then show ?thesis using assms subject_re_nonempty [of i s] by blast
  qed
  then have "List.find (\<lambda>i. rmatch subject_re s i Undefined \<noteq> []) [0..<Suc (length s)] = None"
    by (simp only: find_None_iff) blast
  then show ?thesis by (simp add: str_match_def del: upt_Suc)
qed

lemma msg_colon_after_fields:
  "p_subject msg_colon_after = Some subject_colon_after"
  "p_from msg_colon_after = Some (js ''noreply@windsurf.com'')"
  "p_to msg_colon_after = Some (js ''bob@example.com'')"
  "p_date msg_colon_after = Some 1000"
  by (simp_all add: msg_colon_after_def msg_subject_code_def)

text \<open>
  Claim C2, as stated, fails. In the subject "Windsurf 482913: your sign-in code" the
  six digits at index 9 have a space before and a colon after them, but the subject
  pattern accepts only whitespace, a hyphen or the end after the digits, and finds
  nothing. For a fresh message from the vendor to the target with this subject the
  header callback does not resolve the call; it fetches the full message.
\<close>

theorem colon_after_code_not_matched:
  "spec_flanked subject_colon_after 9
   \<and> take 6 (drop 9 subject_colon_after) = js ''482913''
   \<and> str_match subject_colon_after subject_re = None
   \<and> onHeaderParsed E0 2000 False (Some 7) msg_colon_after polling = call (FetchFull 7) polling
   \<and> settled (call (FetchFull 7) polling) = []"
proof -
  have a: "spec_flanked subject_colon_after 9" by code_simp
  have b: "take 6 (drop 9 subject_colon_after) = js ''482913''" by code_simp
  have c: "str_match subject_colon_after subject_re = None" by code_simp
  have w: "isWindsurf E0 subject_colon_after (js ''noreply@windsurf.com'')" by code_simp
  have t: "isTargetEmail_header E0 (js ''bob@example.com'')" by code_simp
  have h: "onHeaderParsed E0 2000 False (Some 7) msg_colon_after polling = call (FetchFull 7) polling"
    using c w t
    by (simp add: onHeaderParsed_def msg_colon_after_fields emailAge_def or_empty_def polling_eq
          Let_def)
  show ?thesis using a b c h by (simp add: call_def polling_eq)
qed

text \<open>
  Claim C2, amended. If six digits in the subject are preceded by the start of the
  subject, whitespace, a hyphen or a colon, and followed by whitespace, a hyphen or the
  end of the subject, and no such run starts further left, the subject pattern returns
  exactly these six digits; if the subject has no such run, it finds nothing. When it
  finds the run in the subject of a message that is fresh, passes the provenance test
  and passes the recipient test, the header callback marks the message, settles the
  call with the six digits and makes no call but those of \<^verbatim>\<open>cleanup\<close>: no fetch of
  the full message. \<^verbatim>\<open>processEmail\<close> likewise settles the call from the subject, before
  it looks at the text or the HTML.
\<close>

theorem subject_fast_path:
  "(code_flanked s k \<longrightarrow> (\<forall>j<k. \<not> code_flanked s j) \<longrightarrow>
      str_match s subject_re = Some (Str (take 6 (drop k s))))
   \<and> ((\<forall>j. \<not> code_flanked s j) \<longrightarrow> str_match s subject_re = None)
   \<and> (code_flanked s k \<longrightarrow> (\<forall>j<k. \<not> code_flanked s j) \<longrightarrow>
      or_empty (p_subject parsed) = s \<longrightarrow> uid \<noteq> 0 \<longrightarrow> \<not> isResolved st \<longrightarrow>
      emailAge now parsed \<le> 2 * 60 * 1000 \<longrightarrow>
      isWindsurf E s (or_empty (p_from parsed)) \<longrightarrow>
      isTargetEmail_header E (or_empty (p_to parsed)) \<longrightarrow>
        onHeaderParsed E now False (Some uid) parsed st
          = finish (Resolve (Str (take 6 (drop k s)))) (mark uid st)
        \<and> settled (onHeaderParsed E now False (Some uid) parsed st)
            = settled st @ [Resolve (Str (take 6 (drop k s)))]
        \<and> new_calls st (onHeaderParsed E now False (Some uid) parsed st) = teardown st)
   \<and> (code_flanked s k \<longrightarrow> (\<forall>j<k. \<not> code_flanked s j) \<longrightarrow>
      or_empty (p_subject parsed) = s \<longrightarrow> \<not> isResolved st \<longrightarrow> uid \<notin> processedEmails st \<longrightarrow>
      emailAge now parsed \<le> 2 * 60 * 1000 \<longrightarrow>
      isWindsurfEmail E s (or_empty (p_from parsed)) \<longrightarrow>
        processEmail E now parsed uid st
          = (True, finish (Resolve (Str (take 6 (drop k s)))) (mark uid st)))"
proof -
  have f: "settled (finish oc (mark uid st)) = settled st @ [oc]
           \<and> new_calls st (finish oc (mark uid st)) = teardown st"
    if "\<not> isResolved st" for oc
    using that
    by (simp add: new_calls_def calls_finish calls_mark teardown_mark)
       (simp add: finish_def cleanup_def call_def mark_def Let_def)
  have 1: "str_match s subject_re = Some (Str (take 6 (drop k s)))"
    if "code_flanked s k" "\<forall>j<k. \<not> code_flanked s j"
    using that by (rule subject_match_leftmost)
  have 2: "str_match s subject_re = None" if "\<forall>j. \<not> code_flanked s j"
    using that by (rule subject_match_none)
  have 3: "onHeaderParsed E now False (Some uid) parsed st
          = finish (Resolve (Str (take 6 (drop k s)))) (mark uid st)"
    if "str_match s subject_re = Some (Str (take 6 (drop k s)))"
      "or_empty (p_subject parsed) = s" "uid \<noteq> 0" "\<not> isResolved st"
      "emailAge now parsed \<le> 2 * 60 * 1000"
      "isWindsurf E s (or_empty (p_from parsed))"
      "isTargetEmail_header E (or_empty (p_to parsed))"
    using that by (simp add: onHeaderParsed_def Let_def)
  have 4: "processEmail E now parsed uid st
          = (True, finish (Resolve (Str (take 6 (drop k s)))) (mark uid st))"
    if "str_match s subject_re = Some (Str (take 6 (drop k s)))"
      "or_empty (p_subject parsed) = s" "\<not> isResolved st" "uid \<notin> processedEmails st"
      "emailAge now parsed \<le> 2 * 60 * 1000"
      "isWindsurfEmail E s (or_empty (p_from parsed))"
    using that by (simp add: processEmail_def maxEmailAge_def Let_def)
  show ?thesis
    using 1 2 3 4 f [of "Resolve (Str (take 6 (drop k s)))"]
    by (intro conjI impI) simp_all
qed

text \<open>
  The first scenario: in "Your Windsurf code 482913" the run starts at index 19 and no
  run starts before it; the header callback resolves the call with 482913 and makes
  only the two calls of \<^verbatim>\<open>cleanup\<close>.
\<close>

theorem subject_fast_path_witness:
  "code_flanked (js ''Your Windsurf code 482913'') 19
   \<and> list_all (\<lambda>j. \<not> code_flanked (js ''Your Windsurf code 482913'') j) [0..<19]
   \<and> str_match (js ''Your Windsurf code 482913'') subject_re = Some (Str (js ''482913''))
   \<and> settled (onHeaderParsed E0 2000 False (Some 7) msg_subject_code polling)
        = [Resolve (Str (js ''482913''))]
   \<and> new_calls polling (onHeaderParsed E0 2000 False (Some 7) msg_subject_code polling)
        = [ClearInterval, EndConnection]"
proof -
  let ?s = "js ''Your Windsurf code 482913''"
  have a: "code_flanked ?s 19" by code_simp
  have b: "list_all (\<lambda>j. \<not> code_flanked ?s j) [0..<19]" by code_simp
  then have b': "\<forall>j<19. \<not> code_flanked ?s j" by (simp only: list_all_iff set_upt) simp
  have d: "take 6 (drop 19 ?s) = js ''482913''" by code_simp
  have w: "isWindsurf E0 ?s (js ''noreply@windsurf.com'')" by code_simp
  have t: "isTargetEmail_header E0 (js ''bob@example.com'')" by code_simp
  have m: "or_empty (p_subject msg_subject_code) = ?s"
    "or_empty (p_from msg_subject_code) = js ''noreply@windsurf.com''"
    "or_empty (p_to msg_subject_code) = js ''bob@example.com''"
    "emailAge 2000 msg_subject_code \<le> 2 * 60 * 1000"
    by (simp_all add: msg_subject_code_def or_empty_def emailAge_def)
  have p: "\<not> isResolved polling" "settled polling = []"
    "teardown polling = [ClearInterval, EndConnection]"
    by (simp_all add: polling_eq teardown_def)
  have z: "(7::nat) \<noteq> 0" by simp
  have w': "isWindsurf E0 ?s (or_empty (p_from msg_subject_code))" using w m(2) by simp
  have t': "isTargetEmail_header E0 (or_empty (p_to msg_subject_code))" using t m(3) by simp
  have r: "str_match ?s subject_re = Some (Str (take 6 (drop 19 ?s)))
     \<and> settled (onHeaderParsed E0 2000 False (Some 7) msg_subject_code polling)
          = settled polling @ [Resolve (Str (take 6 (drop 19 ?s)))]
     \<and> new_calls polling (onHeaderParsed E0 2000 False (Some 7) msg_subject_code polling)
          = teardown polling"
    using subject_fast_path [where s = ?s and k = 19 and parsed = msg_subject_code and uid = 7
        and st = polling and now = 2000 and E = E0]
      a b' w' t' m(1) m(4) p(1) z
    by blast
  show ?thesis using a b r p by (simp add: d)
qed

end
